theory Spec2Isabelle
  imports Complex_Main
begin

section \<open>Battery feature mapper: column matching, extraction, loading\<close>

text \<open>
  A shallow embedding of \<^verbatim>\<open>src/src/battery_feature_mapper.py\<close> (class
  \<^verbatim>\<open>BatteryFeatureMapper\<close>) and of \<^verbatim>\<open>load_dataset\<close> in
  \<^verbatim>\<open>src/data_loader.py\<close>.

  Python dictionaries keep insertion order and the code iterates over them, so a
  dictionary is an association list whose keys are distinct. Strings are ASCII.
  Library calls (\<^verbatim>\<open>re\<close>, \<^verbatim>\<open>pandas\<close>, the file readers) are
  parameters of the functions that make them; everything printed is returned as a list
  of diagnostics.
\<close>

subsection \<open>Insertion-ordered dictionaries\<close>

type_synonym ('k, 'v) dict = "('k \<times> 'v) list"

text \<open>\<^verbatim>\<open>d[k] = v\<close>: an existing key keeps its position and gets the new value, a new
  key goes last.\<close>

fun dict_set :: "('k, 'v) dict \<Rightarrow> 'k \<Rightarrow> 'v \<Rightarrow> ('k, 'v) dict" where
  "dict_set [] k v = [(k, v)]"
| "dict_set ((k', v') # d) k v =
     (if k' = k then (k, v) # d else (k', v') # dict_set d k v)"

text \<open>\<^verbatim>\<open>list(d.keys())\<close>, \<^verbatim>\<open>k in d\<close> and \<^verbatim>\<open>d.get(k)\<close>.\<close>

definition dict_keys :: "('k, 'v) dict \<Rightarrow> 'k list" where
  "dict_keys d = map fst d"

definition dict_has :: "('k, 'v) dict \<Rightarrow> 'k \<Rightarrow> bool" where
  "dict_has d k = (k \<in> set (dict_keys d))"

definition dict_get :: "('k, 'v) dict \<Rightarrow> 'k \<Rightarrow> 'v option" where
  "dict_get d k = map_of d k"

subsection \<open>Strings\<close>

text \<open>\<^verbatim>\<open>str.lower()\<close> on ASCII: the letters A-Z (codes 65-90) move up by 32.\<close>

definition lower_char :: "char \<Rightarrow> char" where
  "lower_char c =
     (let n = (of_char c :: nat) in if 65 \<le> n \<and> n \<le> 90 then char_of (n + 32) else c)"

definition lower :: "string \<Rightarrow> string" where
  "lower s = map lower_char s"

fun starts_with :: "string \<Rightarrow> string \<Rightarrow> bool" where
  "starts_with s [] = True"
| "starts_with [] (x # p) = False"
| "starts_with (y # s) (x # p) = (x = y \<and> starts_with s p)"

text \<open>\<^verbatim>\<open>p in s\<close>: the string \<open>p\<close> occurs in \<open>s\<close> at some position.\<close>

fun has_substring :: "string \<Rightarrow> string \<Rightarrow> bool" where
  "has_substring [] p = (p = [])"
| "has_substring (y # s) p = (starts_with (y # s) p \<or> has_substring s p)"

subsection \<open>Regular expressions\<close>

text \<open>
  \<^verbatim>\<open>regex = re.compile(pattern, re.IGNORECASE)\<close> either raises \<^verbatim>\<open>re.error\<close>
  (\<open>None\<close>) or gives a compiled pattern, of which the code uses only the truth value of
  \<^verbatim>\<open>regex.search(col)\<close>: a predicate on strings. The matcher takes the function
  \<open>re_compile\<close> as a parameter.
\<close>

type_synonym regex = "string \<Rightarrow> bool"
type_synonym re_compile = "string \<Rightarrow> regex option"

text \<open>
  The part of \<^verbatim>\<open>re.compile(_, re.IGNORECASE)\<close> that needs no regex syntax: a pattern
  of ASCII letters, digits and underscores only (each of the built-in patterns is one)
  has no metacharacter, always compiles, and its \<^verbatim>\<open>search\<close> succeeds exactly on
  the strings that contain the pattern up to letter case. Patterns with any other
  character are not interpreted by \<open>re_compile_plain\<close>, which gives \<open>None\<close> for them.
\<close>

definition is_word_char :: "char \<Rightarrow> bool" where
  "is_word_char c =
     (let n = (of_char c :: nat) in
        (48 \<le> n \<and> n \<le> 57) \<or> (65 \<le> n \<and> n \<le> 90) \<or> n = 95 \<or> (97 \<le> n \<and> n \<le> 122))"

definition search_plain :: "string \<Rightarrow> regex" where
  "search_plain pattern col = has_substring (lower col) (lower pattern)"

definition re_compile_plain :: re_compile where
  "re_compile_plain pattern =
     (if list_all is_word_char pattern then Some (search_plain pattern) else None)"

subsection \<open>The mapper and its pattern registry\<close>

text \<open>The exceptions: \<^verbatim>\<open>re.error\<close> from \<^verbatim>\<open>re.compile\<close>, the
  \<^verbatim>\<open>ValueError\<close> of \<^verbatim>\<open>load_dataset\<close> with its message, and whatever a
  pandas file reader raises.\<close>

datatype py_error = ReError string | ValueError string | ReaderError string

record mapper =
  feature_patterns :: "(string, string list) dict"
  standard_features :: "string list"

text \<open>\<^verbatim>\<open>BatteryFeatureMapper.__init__\<close>\<close>

definition default_feature_patterns :: "(string, string list) dict" where
  "default_feature_patterns =
    [(''capacity'',
        [''capacity'', ''cap'', ''q'', ''charge_capacity'', ''discharge_capacity'',
         ''nominal_capacity'', ''ah'', ''ampere_hour'', ''mah'', ''milliampere'']),
     (''voltage'',
        [''voltage'', ''volt'', ''v'', ''batt_voltage'', ''cell_voltage'',
         ''terminal_voltage'', ''v_batt'', ''volts'', ''voltage_v'']),
     (''current'',
        [''current'', ''curr'', ''i'', ''batt_current'', ''cell_current'',
         ''discharge_current'', ''charge_current'', ''amps'', ''amperes'',
         ''current_a'', ''ampere'']),
     (''temperature'',
        [''temperature'', ''temp'', ''tmp'', ''batt_temp'', ''cell_temp'',
         ''t_batt'', ''thermal'', ''deg'', ''celsius'', ''fahrenheit'',
         ''temp_c'', ''temp_f'']),
     (''discharge_time'',
        [''discharge_time'', ''disch_time'', ''t_discharge'', ''t_disch'',
         ''discharge_duration'', ''duration_discharge'', ''disc_time'',
         ''time_discharge'']),
     (''charge_time'',
        [''charge_time'', ''chg_time'', ''t_charge'', ''t_chg'',
         ''charge_duration'', ''duration_charge'', ''ch_time'',
         ''time_charge''])]"

definition mapper_init :: mapper where
  "mapper_init = \<lparr>feature_patterns = default_feature_patterns,
           standard_features = dict_keys default_feature_patterns\<rparr>"

text \<open>\<^verbatim>\<open>add_custom_pattern\<close>\<close>

definition add_custom_pattern :: "mapper \<Rightarrow> string \<Rightarrow> string list \<Rightarrow> mapper" where
  "add_custom_pattern self feature_name patterns =
     (let fp = dict_set (feature_patterns self) feature_name patterns
      in \<lparr>feature_patterns = fp, standard_features = dict_keys fp\<rparr>)"

subsection \<open>\<^verbatim>\<open>find_matching_columns\<close>\<close>

text \<open>The two locals the loops update.\<close>

record match_state =
  matches :: "(string, string) dict"
  used_columns :: "string set"

text \<open>The innermost loop, \<^verbatim>\<open>for col in df_columns\<close>, which stops at its
  \<^verbatim>\<open>break\<close>.\<close>

fun scan_columns :: "regex \<Rightarrow> string \<Rightarrow> string list \<Rightarrow> match_state \<Rightarrow> match_state" where
  "scan_columns regex feature [] st = st"
| "scan_columns regex feature (col # cols) st =
     (if regex col \<and> col \<notin> used_columns st \<and> \<not> dict_has (matches st) feature
      then \<lparr>matches = dict_set (matches st) feature col,
            used_columns = insert col (used_columns st)\<rparr>
      else scan_columns regex feature cols st)"

text \<open>\<^verbatim>\<open>for pattern in patterns\<close>: compile, scan the columns, and leave the loop as
  soon as the feature is in \<^verbatim>\<open>matches\<close>.\<close>

fun scan_patterns ::
  "re_compile \<Rightarrow> string \<Rightarrow> string list \<Rightarrow> string list \<Rightarrow> match_state \<Rightarrow> py_error + match_state"
where
  "scan_patterns rc feature [] df_columns st = Inr st"
| "scan_patterns rc feature (pattern # patterns) df_columns st =
     (case rc pattern of
        None \<Rightarrow> Inl (ReError pattern)
      | Some regex \<Rightarrow>
          (let st' = scan_columns regex feature df_columns st
           in if dict_has (matches st') feature then Inr st'
              else scan_patterns rc feature patterns df_columns st'))"

text \<open>\<^verbatim>\<open>for feature, patterns in self.feature_patterns.items()\<close>\<close>

fun scan_features ::
  "re_compile \<Rightarrow> (string, string list) dict \<Rightarrow> string list \<Rightarrow> match_state \<Rightarrow> py_error + match_state"
where
  "scan_features rc [] df_columns st = Inr st"
| "scan_features rc ((feature, patterns) # items) df_columns st =
     (case scan_patterns rc feature patterns df_columns st of
        Inl e \<Rightarrow> Inl e
      | Inr st' \<Rightarrow> scan_features rc items df_columns st')"

definition find_matching_columns ::
  "re_compile \<Rightarrow> mapper \<Rightarrow> string list \<Rightarrow> py_error + (string, string) dict" where
  "find_matching_columns rc self df_columns =
     (case scan_features rc (feature_patterns self) df_columns
             \<lparr>matches = [], used_columns = {}\<rparr> of
        Inl e \<Rightarrow> Inl e
      | Inr st \<Rightarrow> Inr (matches st))"

text \<open>\<^verbatim>\<open>get_available_features\<close>\<close>

definition get_available_features ::
  "re_compile \<Rightarrow> mapper \<Rightarrow> string list \<Rightarrow> py_error + string set" where
  "get_available_features rc self df_columns =
     (case find_matching_columns rc self df_columns of
        Inl e \<Rightarrow> Inl e
      | Inr mapping \<Rightarrow> Inr (set (dict_keys mapping)))"

subsection \<open>The greedy matching of the specification\<close>

text \<open>
  Written from the specification's description of the matching, to be compared with
  \<open>find_matching_columns\<close>: a column is eligible for a pattern when it contains a match of
  the pattern and no earlier feature is bound to it; a feature is bound to the first
  eligible column of its first pattern that has one (patterns in declared order, columns
  in the given order), and is left out when no pattern has one.
\<close>

definition contains_match :: "re_compile \<Rightarrow> string \<Rightarrow> string \<Rightarrow> bool" where
  "contains_match rc pattern col = (case rc pattern of None \<Rightarrow> False | Some regex \<Rightarrow> regex col)"

definition eligible_columns ::
  "re_compile \<Rightarrow> string list \<Rightarrow> string list \<Rightarrow> (string, string) dict \<Rightarrow> string list" where
  "eligible_columns rc patterns columns bound =
     concat (map (\<lambda>pattern.
        filter (\<lambda>col. contains_match rc pattern col \<and> col \<notin> snd ` set bound) columns) patterns)"

fun greedy_mapping ::
  "re_compile \<Rightarrow> (string, string list) dict \<Rightarrow> string list \<Rightarrow> (string, string) dict
     \<Rightarrow> (string, string) dict"
where
  "greedy_mapping rc [] columns bound = bound"
| "greedy_mapping rc ((feature, patterns) # later) columns bound =
     (case eligible_columns rc patterns columns bound of
        [] \<Rightarrow> greedy_mapping rc later columns bound
      | col # _ \<Rightarrow> greedy_mapping rc later columns (bound @ [(feature, col)]))"

text \<open>Every pattern of the registry is a regular expression that \<^verbatim>\<open>re\<close> accepts.\<close>

definition patterns_compile :: "re_compile \<Rightarrow> (string, string list) dict \<Rightarrow> bool" where
  "patterns_compile rc fp = list_all (\<lambda>(feature, patterns). list_all (\<lambda>p. rc p \<noteq> None) patterns) fp"

subsection \<open>\<^verbatim>\<open>extract_features\<close>\<close>

text \<open>
  A \<^verbatim>\<open>pandas.DataFrame\<close> is its columns in order, each a label with the column's
  values. pandas allows a label to stand over more than one column.
  \<^verbatim>\<open>pd.DataFrame()\<close> is the frame with no column and \<^verbatim>\<open>df.columns.tolist()\<close>
  the labels in order.
\<close>

type_synonym 'v frame = "(string \<times> 'v list) list"

definition frame_columns :: "'v frame \<Rightarrow> string list" where
  "frame_columns df = map fst df"

text \<open>
  \<^verbatim>\<open>df[c]\<close> selects every column labelled \<open>c\<close>: one column gives a series, several
  give a frame of them.
\<close>

definition columns_labelled :: "'v frame \<Rightarrow> string \<Rightarrow> 'v list list" where
  "columns_labelled df c = map snd (filter (\<lambda>(label, col). label = c) df)"

text \<open>One constructor for each message the code prints.\<close>

datatype diagnostic =
    ColumnNotFound string
  | MissingFeatures "string set"
  | UnknownStrategy string
  | StrategyUsed string
  | ShapeReport "nat \<times> nat" "nat \<times> nat"
  | MissingCountReport nat nat

text \<open>
  \<^verbatim>\<open>for std_feature, actual_col in mapping.items()\<close>, on the pair of the result
  frame and the lines printed so far. The assignment \<^verbatim>\<open>result_df[f] = df[c]\<close> stores
  a series as it is (every series comes from the one input frame, so all share its row
  index); when \<^verbatim>\<open>df[c]\<close> is a frame of several columns, pandas raises
  \<^verbatim>\<open>ValueError\<close> and the loop ends there.
\<close>

fun copy_columns ::
  "'v frame \<Rightarrow> (string, string) dict \<Rightarrow> 'v frame \<times> diagnostic list
     \<Rightarrow> py_error + ('v frame \<times> diagnostic list)"
where
  "copy_columns df [] acc = Inr acc"
| "copy_columns df ((std_feature, actual_col) # items) (result_df, out) =
     (if actual_col \<in> set (frame_columns df)
      then (case columns_labelled df actual_col of
              [series] \<Rightarrow> copy_columns df items (dict_set result_df std_feature series, out)
            | _ \<Rightarrow>
                Inl (ValueError
                  (''Cannot set a DataFrame with multiple columns to the single column ''
                     @ std_feature)))
      else copy_columns df items (result_df, out @ [ColumnNotFound actual_col]))"

definition extract_features ::
  "re_compile \<Rightarrow> mapper \<Rightarrow> 'v frame \<Rightarrow> (string, string) dict option
     \<Rightarrow> py_error + ('v frame \<times> diagnostic list)" where
  "extract_features rc self df mapping =
     (case (case mapping of
              None \<Rightarrow> find_matching_columns rc self (frame_columns df)
            | Some m \<Rightarrow> Inr m) of
        Inl e \<Rightarrow> Inl e
      | Inr m \<Rightarrow>
          (case copy_columns df m ([], []) of
             Inl e \<Rightarrow> Inl e
           | Inr (result_df, out) \<Rightarrow>
               (let missing_features = set (standard_features self) - set (dict_keys m)
                in Inr (result_df,
                        if missing_features \<noteq> {}
                        then out @ [MissingFeatures missing_features]
                        else out))))"

text \<open>The mapping names no column that stands under a repeated label of the frame.\<close>

definition no_repeated_label :: "'v frame \<Rightarrow> (string, string) dict \<Rightarrow> bool" where
  "no_repeated_label df mapping =
     list_all (\<lambda>(f, c). length (columns_labelled df c) \<le> 1) mapping"

text \<open>What the specification says of the normalized table when it is read alone: one
  column per key of the mapping, in the mapping's order.\<close>

definition columns_are_keys :: "'v frame \<Rightarrow> (string, string) dict \<Rightarrow> bool" where
  "columns_are_keys result_df mapping = (frame_columns result_df = dict_keys mapping)"

subsection \<open>\<^verbatim>\<open>handle_missing_values\<close>\<close>

text \<open>
  The pandas calls of \<^verbatim>\<open>handle_missing_values\<close>, on frames \<open>'f\<close> and series \<open>'s\<close>:
  \<^verbatim>\<open>dropna()\<close>, \<^verbatim>\<open>mean(numeric_only=True)\<close>, \<^verbatim>\<open>median(numeric_only=True)\<close>,
  \<^verbatim>\<open>fillna(series)\<close>, \<^verbatim>\<open>fillna(method=m)\<close>, \<^verbatim>\<open>shape\<close> and
  \<^verbatim>\<open>isnull().sum().sum()\<close>. None is called with \<^verbatim>\<open>inplace=True\<close>: each reads its
  receiver and returns a new object.
\<close>

record ('f, 's) pandas_ops =
  dropna :: "'f \<Rightarrow> 'f"
  mean_numeric :: "'f \<Rightarrow> 's"
  median_numeric :: "'f \<Rightarrow> 's"
  fillna :: "'f \<Rightarrow> 's \<Rightarrow> 'f"
  fillna_method :: "'f \<Rightarrow> string \<Rightarrow> 'f"
  shape :: "'f \<Rightarrow> nat \<times> nat"
  isnull_sum_sum :: "'f \<Rightarrow> nat"

text \<open>
  Frames are objects: the caller's \<^verbatim>\<open>df\<close> and the local \<^verbatim>\<open>df_clean\<close> are
  references into a heap of frames. A reference is an index into the heap, and a new
  object goes at its end.
\<close>

type_synonym 'f heap = "'f list"
type_synonym ref = nat

definition new_object :: "'f heap \<Rightarrow> 'f \<Rightarrow> 'f heap \<times> ref" where
  "new_object h v = (h @ [v], length h)"

text \<open>A method call \<^verbatim>\<open>r.m(...)\<close> that returns a new frame computed from the receiver.\<close>

definition call_method :: "'f heap \<Rightarrow> ref \<Rightarrow> ('f \<Rightarrow> 'f) \<Rightarrow> 'f heap \<times> ref" where
  "call_method h r m = new_object h (m (h ! r))"

definition fillna_mean :: "('f, 's) pandas_ops \<Rightarrow> 'f \<Rightarrow> 'f" where
  "fillna_mean pd f = fillna pd f (mean_numeric pd f)"

definition fillna_median :: "('f, 's) pandas_ops \<Rightarrow> 'f \<Rightarrow> 'f" where
  "fillna_median pd f = fillna pd f (median_numeric pd f)"

definition handle_missing_values ::
  "('f, 's) pandas_ops \<Rightarrow> 'f heap \<Rightarrow> ref \<Rightarrow> string \<Rightarrow> 'f heap \<times> ref \<times> diagnostic list" where
  "handle_missing_values pd h df strategy =
     (let (h1, df_clean) = call_method h df id;
          ((h2, df_clean), out) =
            (if strategy = ''drop'' then (call_method h1 df_clean (dropna pd), [])
             else if strategy = ''mean'' then (call_method h1 df_clean (fillna_mean pd), [])
             else if strategy = ''median'' then (call_method h1 df_clean (fillna_median pd), [])
             else if strategy = ''forward_fill''
               then (call_method h1 df_clean (\<lambda>f. fillna_method pd f ''ffill''), [])
             else if strategy = ''backward_fill''
               then (call_method h1 df_clean (\<lambda>f. fillna_method pd f ''bfill''), [])
             else (call_method h1 df_clean (fillna_mean pd), [UnknownStrategy strategy]))
      in (h2, df_clean,
          out @ [StrategyUsed strategy,
                 ShapeReport (shape pd (h2 ! df)) (shape pd (h2 ! df_clean)),
                 MissingCountReport (isnull_sum_sum pd (h2 ! df))
                                    (isnull_sum_sum pd (h2 ! df_clean))]))"

subsection \<open>\<^verbatim>\<open>load_dataset\<close>\<close>

text \<open>\<^verbatim>\<open>str.rfind\<close> for one character: the last index where it stands, or \<open>-1\<close>.\<close>

fun rfind :: "string \<Rightarrow> char \<Rightarrow> int" where
  "rfind [] c = -1"
| "rfind (x # xs) c =
     (let r = rfind xs c in if 0 \<le> r then r + 1 else if x = c then 0 else -1)"

text \<open>
  \<^verbatim>\<open>os.path.splitext\<close> of \<^verbatim>\<open>posixpath\<close>: the extension starts at the last dot, when
  that dot stands after the last \<^verbatim>\<open>/\<close> and some character between the two is not a
  dot (leading dots of the file name do not start an extension); otherwise it is empty.
\<close>

definition splitext :: "string \<Rightarrow> string \<times> string" where
  "splitext p =
     (let sepIndex = rfind p (CHR ''/''); dotIndex = rfind p (CHR ''.'')
      in if sepIndex < dotIndex \<and>
            list_ex (\<lambda>ch. ch \<noteq> CHR ''.'')
              (drop (nat (sepIndex + 1)) (take (nat dotIndex) p))
         then (take (nat dotIndex) p, drop (nat dotIndex) p)
         else (p, []))"

text \<open>The four pandas readers, which get the path and the keyword arguments as they
  are, and may raise.\<close>

record ('kw, 'f) pandas_io =
  read_csv :: "string \<Rightarrow> 'kw \<Rightarrow> py_error + 'f"
  read_excel :: "string \<Rightarrow> 'kw \<Rightarrow> py_error + 'f"
  read_parquet :: "string \<Rightarrow> 'kw \<Rightarrow> py_error + 'f"
  read_json :: "string \<Rightarrow> 'kw \<Rightarrow> py_error + 'f"

definition load_dataset :: "('kw, 'f) pandas_io \<Rightarrow> string \<Rightarrow> 'kw \<Rightarrow> py_error + 'f" where
  "load_dataset pd file_path kwargs =
     (let file_ext = lower (snd (splitext file_path))
      in if file_ext = ''.csv'' then read_csv pd file_path kwargs
         else if file_ext \<in> set [''.xlsx'', ''.xls''] then read_excel pd file_path kwargs
         else if file_ext = ''.parquet'' then read_parquet pd file_path kwargs
         else if file_ext = ''.json'' then read_json pd file_path kwargs
         else Inl (ValueError (''Unsupported file format: '' @ file_ext)))"

text \<open>The extensions \<^verbatim>\<open>load_dataset\<close> dispatches on.\<close>

definition supported_extensions :: "string set" where
  "supported_extensions = {''.csv'', ''.xlsx'', ''.xls'', ''.parquet'', ''.json''}"

text \<open>The table \<^verbatim>\<open>handle_missing_values\<close> returns: the object its result refers to.\<close>

definition returned_frame :: "'f heap \<times> ref \<times> diagnostic list \<Rightarrow> 'f" where
  "returned_frame res = (case res of (h, r, out) \<Rightarrow> h ! r)"

subsection \<open>The pandas operations on numeric frames\<close>

text \<open>
  The operations above on frames whose cells are numbers or missing (\<open>None\<close> for
  \<^verbatim>\<open>NaN\<close>), all columns of one length. Numbers are exact rationals: the rounding
  of floating-point means is not modelled. A series holds one value per column label.
\<close>

type_synonym num_frame = "rat option frame"
type_synonym num_series = "(string, rat option) dict"

definition nrows :: "'v frame \<Rightarrow> nat" where
  "nrows f = (case f of [] \<Rightarrow> 0 | (label, col) # _ \<Rightarrow> length col)"

definition present :: "'a option list \<Rightarrow> 'a list" where
  "present col = List.map_filter (\<lambda>x. x) col"

text \<open>\<^verbatim>\<open>dropna()\<close> keeps the rows with no missing cell.\<close>

definition num_dropna :: "num_frame \<Rightarrow> num_frame" where
  "num_dropna f =
     (let keep = filter (\<lambda>i. list_all (\<lambda>(label, col). col ! i \<noteq> None) f) [0..<nrows f]
      in map (\<lambda>(label, col). (label, map (\<lambda>i. col ! i) keep)) f)"

text \<open>\<^verbatim>\<open>mean\<close> and \<^verbatim>\<open>median\<close> skip missing cells; a column with no number has
  none.\<close>

definition column_mean :: "rat option list \<Rightarrow> rat option" where
  "column_mean col =
     (let xs = present col
      in if xs = [] then None else Some (sum_list xs / of_nat (length xs)))"

definition column_median :: "rat option list \<Rightarrow> rat option" where
  "column_median col =
     (let xs = sort (present col); n = length xs
      in if n = 0 then None
         else if odd n then Some (xs ! (n div 2))
         else Some ((xs ! (n div 2 - 1) + xs ! (n div 2)) / 2))"

definition num_mean :: "num_frame \<Rightarrow> num_series" where
  "num_mean f = map (\<lambda>(label, col). (label, column_mean col)) f"

definition num_median :: "num_frame \<Rightarrow> num_series" where
  "num_median f = map (\<lambda>(label, col). (label, column_median col)) f"

text \<open>\<^verbatim>\<open>fillna(series)\<close> puts the series' value for the column's label into the
  column's missing cells.\<close>

definition num_fillna :: "num_frame \<Rightarrow> num_series \<Rightarrow> num_frame" where
  "num_fillna f s =
     map (\<lambda>(label, col).
       (label, case dict_get s label of
                 Some (Some m) \<Rightarrow> map (\<lambda>x. case x of None \<Rightarrow> Some m | Some v \<Rightarrow> Some v) col
               | _ \<Rightarrow> col)) f"

text \<open>\<^verbatim>\<open>ffill\<close> carries the last value seen into the missing cells after it.\<close>

fun ffill_from :: "'a option \<Rightarrow> 'a option list \<Rightarrow> 'a option list" where
  "ffill_from prev [] = []"
| "ffill_from prev (None # xs) = prev # ffill_from prev xs"
| "ffill_from prev (Some v # xs) = Some v # ffill_from (Some v) xs"

definition num_fillna_method :: "num_frame \<Rightarrow> string \<Rightarrow> num_frame" where
  "num_fillna_method f method =
     (if method = ''ffill'' then map (\<lambda>(label, col). (label, ffill_from None col)) f
      else if method = ''bfill''
        then map (\<lambda>(label, col). (label, rev (ffill_from None (rev col)))) f
      else f)"

definition num_isnull_sum_sum :: "num_frame \<Rightarrow> nat" where
  "num_isnull_sum_sum f = sum_list (map (\<lambda>(label, col). length (filter (\<lambda>x. x = None) col)) f)"

definition num_pandas :: "(num_frame, num_series) pandas_ops" where
  "num_pandas =
     \<lparr>dropna = num_dropna, mean_numeric = num_mean, median_numeric = num_median,
      fillna = num_fillna, fillna_method = num_fillna_method,
      shape = (\<lambda>f. (nrows f, length f)), isnull_sum_sum = num_isnull_sum_sum\<rparr>"

text \<open>Readers for a file system with no file: each raises.\<close>

definition no_files :: "(unit, num_frame) pandas_io" where
  "no_files =
     \<lparr>read_csv = (\<lambda>path kw. Inl (ReaderError path)),
      read_excel = (\<lambda>path kw. Inl (ReaderError path)),
      read_parquet = (\<lambda>path kw. Inl (ReaderError path)),
      read_json = (\<lambda>path kw. Inl (ReaderError path))\<rparr>"

section \<open>Properties\<close>

subsection \<open>Dictionaries\<close>

lemma dict_set_absent: "k \<notin> fst ` set d \<Longrightarrow> dict_set d k v = d @ [(k, v)]"
  by (induction d) auto

lemma dict_has_get: "dict_has d k \<longleftrightarrow> dict_get d k \<noteq> None"
  by (simp add: dict_has_def dict_keys_def dict_get_def map_of_eq_None_iff)

subsection \<open>The loops of \<^verbatim>\<open>find_matching_columns\<close> compute the greedy mapping\<close>

lemma scan_columns_filter:
  "\<not> dict_has (matches st) f \<Longrightarrow>
   scan_columns rx f cols st =
     (case filter (\<lambda>c. rx c \<and> c \<notin> used_columns st) cols of
        [] \<Rightarrow> st
      | c # _ \<Rightarrow> \<lparr>matches = matches st @ [(f, c)], used_columns = insert c (used_columns st)\<rparr>)"
  by (induction cols) (auto simp: dict_has_def dict_keys_def dict_set_absent)

lemma eligible_columns_Cons:
  "rc p = Some rx \<Longrightarrow>
   eligible_columns rc (p # ps) cols bound =
     filter (\<lambda>c. rx c \<and> c \<notin> snd ` set bound) cols @ eligible_columns rc ps cols bound"
  by (simp add: eligible_columns_def contains_match_def)

lemma scan_patterns_eligible:
  assumes "\<not> dict_has (matches st) f"
    and "list_all (\<lambda>p. rc p \<noteq> None) ps"
    and "used_columns st = snd ` set (matches st)"
  shows "scan_patterns rc f ps cols st =
     Inr (case eligible_columns rc ps cols (matches st) of
            [] \<Rightarrow> st
          | c # _ \<Rightarrow> \<lparr>matches = matches st @ [(f, c)],
                       used_columns = insert c (used_columns st)\<rparr>)"
  using assms
proof (induction ps)
  case Nil
  then show ?case by (simp add: eligible_columns_def)
next
  case (Cons p ps)
  from Cons.prems(2) obtain rx where rx: "rc p = Some rx" by auto
  let ?hits = "filter (\<lambda>c. rx c \<and> c \<notin> used_columns st) cols"
  have split: "eligible_columns rc (p # ps) cols (matches st) =
      ?hits @ eligible_columns rc ps cols (matches st)"
    using rx Cons.prems(3) by (simp add: eligible_columns_Cons [of rc p rx])
  show ?case
  proof (cases ?hits)
    case none: Nil
    then have same: "scan_columns rx f cols st = st"
      using Cons.prems(1) by (simp add: scan_columns_filter)
    show ?thesis
      using Cons rx same split none by simp
  next
    case hit: (Cons c cs)
    then have "scan_columns rx f cols st =
        \<lparr>matches = matches st @ [(f, c)], used_columns = insert c (used_columns st)\<rparr>"
      using Cons.prems(1) by (simp add: scan_columns_filter)
    then show ?thesis
      using rx split hit by (simp add: dict_has_def dict_keys_def)
  qed
qed

lemma scan_features_greedy:
  assumes "distinct (map fst items)"
    and "\<forall>f \<in> fst ` set items. \<not> dict_has (matches st) f"
    and "patterns_compile rc items"
    and "used_columns st = snd ` set (matches st)"
  shows "scan_features rc items cols st =
     Inr \<lparr>matches = greedy_mapping rc items cols (matches st),
          used_columns = snd ` set (greedy_mapping rc items cols (matches st))\<rparr>"
  using assms
proof (induction items arbitrary: st)
  case Nil
  then show ?case by simp
next
  case (Cons item items)
  obtain f ps where item: "item = (f, ps)" by (cases item)
  have nf: "\<not> dict_has (matches st) f" using Cons.prems(2) item by simp
  have comp: "list_all (\<lambda>p. rc p \<noteq> None) ps" and comps: "patterns_compile rc items"
    using Cons.prems(3) item by (simp_all add: patterns_compile_def)
  note step = scan_patterns_eligible [OF nf comp Cons.prems(4), of cols]
  show ?case
  proof (cases "eligible_columns rc ps cols (matches st)")
    case none: Nil
    with step have "scan_patterns rc f ps cols st = Inr st" by simp
    moreover have "scan_features rc items cols st =
        Inr \<lparr>matches = greedy_mapping rc items cols (matches st),
             used_columns = snd ` set (greedy_mapping rc items cols (matches st))\<rparr>"
      using Cons.prems by (intro Cons.IH comps) auto
    ultimately show ?thesis using item none by simp
  next
    case hit: (Cons c cs)
    let ?st = "\<lparr>matches = matches st @ [(f, c)], used_columns = insert c (used_columns st)\<rparr>"
    from step hit have s: "scan_patterns rc f ps cols st = Inr ?st" by simp
    have "scan_features rc items cols ?st =
        Inr \<lparr>matches = greedy_mapping rc items cols (matches ?st),
             used_columns = snd ` set (greedy_mapping rc items cols (matches ?st))\<rparr>"
    proof (rule Cons.IH [OF _ _ comps])
      show "distinct (map fst items)" using Cons.prems(1) by simp
      show "\<forall>g \<in> fst ` set items. \<not> dict_has (matches ?st) g"
        using Cons.prems(1,2) item by (auto simp: dict_has_def dict_keys_def)
      show "used_columns ?st = snd ` set (matches ?st)"
        using Cons.prems(4) by auto
    qed
    then show ?thesis using item hit s by simp
  qed
qed

lemma find_matching_columns_greedy:
  assumes "distinct (dict_keys (feature_patterns self))"
    and "patterns_compile rc (feature_patterns self)"
  shows "find_matching_columns rc self df_columns =
           Inr (greedy_mapping rc (feature_patterns self) df_columns [])"
proof -
  have "scan_features rc (feature_patterns self) df_columns \<lparr>matches = [], used_columns = {}\<rparr> =
      Inr \<lparr>matches = greedy_mapping rc (feature_patterns self) df_columns [],
           used_columns = snd ` set (greedy_mapping rc (feature_patterns self) df_columns [])\<rparr>"
    using scan_features_greedy [of "feature_patterns self" "\<lparr>matches = [], used_columns = {}\<rparr>" rc df_columns]
      assms by (simp add: dict_keys_def dict_has_def)
  then show ?thesis by (simp add: find_matching_columns_def)
qed

subsection \<open>Invariants of the scan: bound columns are distinct columns of the input\<close>

lemma scan_columns_values:
  assumes "distinct (map snd (matches st))"
    and "snd ` set (matches st) \<subseteq> used_columns st"
    and "snd ` set (matches st) \<subseteq> C"
    and "set cols \<subseteq> C"
  shows "distinct (map snd (matches (scan_columns rx f cols st))) \<and>
         snd ` set (matches (scan_columns rx f cols st)) \<subseteq> used_columns (scan_columns rx f cols st) \<and>
         snd ` set (matches (scan_columns rx f cols st)) \<subseteq> C"
  using assms
proof (induction cols)
  case Nil
  then show ?case by simp
next
  case (Cons col cols)
  show ?case
  proof (cases "rx col \<and> col \<notin> used_columns st \<and> \<not> dict_has (matches st) f")
    case True
    then have "dict_set (matches st) f col = matches st @ [(f, col)]"
      by (simp add: dict_set_absent dict_has_def dict_keys_def)
    with True Cons.prems show ?thesis by auto
  next
    case False
    with Cons show ?thesis by auto
  qed
qed

lemma scan_patterns_values:
  assumes "scan_patterns rc f ps cols st = Inr st'"
    and "distinct (map snd (matches st))"
    and "snd ` set (matches st) \<subseteq> used_columns st"
    and "snd ` set (matches st) \<subseteq> C"
    and "set cols \<subseteq> C"
  shows "distinct (map snd (matches st')) \<and>
         snd ` set (matches st') \<subseteq> used_columns st' \<and>
         snd ` set (matches st') \<subseteq> C"
  using assms
proof (induction ps arbitrary: st)
  case Nil
  then show ?case by simp
next
  case (Cons p ps)
  from Cons.prems(1) obtain rx where rx: "rc p = Some rx"
    by (cases "rc p") auto
  note mid = scan_columns_values [OF Cons.prems(2-5), of rx f]
  show ?case
  proof (cases "dict_has (matches (scan_columns rx f cols st)) f")
    case True
    with Cons.prems(1) rx have "st' = scan_columns rx f cols st" by simp
    with mid show ?thesis by simp
  next
    case False
    with Cons.prems(1) rx have "scan_patterns rc f ps cols (scan_columns rx f cols st) = Inr st'"
      by simp
    then show ?thesis
      using mid Cons.prems(5) by (intro Cons.IH) auto
  qed
qed

lemma scan_features_values:
  assumes "scan_features rc items cols st = Inr st'"
    and "distinct (map snd (matches st))"
    and "snd ` set (matches st) \<subseteq> used_columns st"
    and "snd ` set (matches st) \<subseteq> C"
    and "set cols \<subseteq> C"
  shows "distinct (map snd (matches st')) \<and> snd ` set (matches st') \<subseteq> C"
  using assms
proof (induction items arbitrary: st)
  case Nil
  then show ?case by simp
next
  case (Cons item items)
  obtain f ps where item: "item = (f, ps)" by (cases item)
  from Cons.prems(1) item obtain st1 where
    st1: "scan_patterns rc f ps cols st = Inr st1" and rest: "scan_features rc items cols st1 = Inr st'"
    by (cases "scan_patterns rc f ps cols st") auto
  note mid = scan_patterns_values [OF st1 Cons.prems(2-5)]
  show ?case
    using rest mid Cons.prems(5) by (intro Cons.IH [of st1]) auto
qed

lemma find_matching_columns_values:
  assumes "find_matching_columns rc self df_columns = Inr mapping"
  shows "distinct (map snd mapping) \<and> snd ` set mapping \<subseteq> set df_columns"
proof -
  from assms obtain st' where
    run: "scan_features rc (feature_patterns self) df_columns \<lparr>matches = [], used_columns = {}\<rparr> = Inr st'"
    and m: "mapping = matches st'"
    by (auto simp: find_matching_columns_def split: sum.splits)
  from scan_features_values [OF run, of "set df_columns"] m show ?thesis by simp
qed

subsection \<open>Which features the greedy mapping binds\<close>

lemma eligible_columns_hit:
  "c \<in> set (eligible_columns rc ps cols bound) \<Longrightarrow>
     \<exists>p \<in> set ps. c \<in> set cols \<and> contains_match rc p c"
  by (auto simp: eligible_columns_def)

lemma greedy_mapping_keys:
  "f \<in> fst ` set (greedy_mapping rc items cols bound) \<Longrightarrow>
     f \<in> fst ` set bound \<or>
     (\<exists>ps p c. (f, ps) \<in> set items \<and> p \<in> set ps \<and> c \<in> set cols \<and> contains_match rc p c)"
proof (induction items arbitrary: bound)
  case Nil
  then show ?case by simp
next
  case (Cons item items)
  obtain g ps where item: "item = (g, ps)" by (cases item)
  show ?case
  proof (cases "eligible_columns rc ps cols bound")
    case none: Nil
    with Cons.prems item have "f \<in> fst ` set (greedy_mapping rc items cols bound)" by simp
    from Cons.IH [OF this] show ?thesis by auto
  next
    case hit: (Cons c cs)
    with Cons.prems item have "f \<in> fst ` set (greedy_mapping rc items cols (bound @ [(g, c)]))"
      by simp
    from Cons.IH [OF this] have "f \<in> fst ` set bound \<or> f = g \<or>
        (\<exists>ps p c. (f, ps) \<in> set items \<and> p \<in> set ps \<and> c \<in> set cols \<and> contains_match rc p c)"
      by auto
    moreover have "\<exists>p \<in> set ps. c \<in> set cols \<and> contains_match rc p c"
      using eligible_columns_hit [of c rc ps cols bound] hit by simp
    ultimately show ?thesis using item by auto
  qed
qed

subsection \<open>The loop of \<^verbatim>\<open>extract_features\<close>\<close>

lemma in_frame_columns: "c \<in> set (frame_columns df) \<longleftrightarrow> columns_labelled df c \<noteq> []"
  by (induction df) (auto simp: frame_columns_def columns_labelled_def)

lemma columns_labelled_absent: "f \<notin> fst ` set xs \<Longrightarrow> columns_labelled xs f = []"
  by (induction xs) (auto simp: columns_labelled_def)

text \<open>The columns the loop stores, when no error ends it: one for each pair of the
  mapping whose column label stands over exactly one column of the frame.\<close>

lemma copy_columns_result:
  assumes "distinct (map fst m)" and "\<forall>k \<in> fst ` set m. k \<notin> fst ` set res"
    and "no_repeated_label df m"
  shows "copy_columns df m (res, out) =
     Inr (res @ List.map_filter
                  (\<lambda>(f, c). case columns_labelled df c of [s] \<Rightarrow> Some (f, s) | _ \<Rightarrow> None) m,
          out @ map (\<lambda>(f, c). ColumnNotFound c)
                  (filter (\<lambda>(f, c). c \<notin> set (frame_columns df)) m))"
  using assms
proof (induction m arbitrary: res out)
  case Nil
  then show ?case by (simp add: List.map_filter_simps)
next
  case (Cons item m)
  obtain f c where item: "item = (f, c)" by (cases item)
  have rest: "no_repeated_label df m" and here: "length (columns_labelled df c) \<le> 1"
    using Cons.prems(3) item by (simp_all add: no_repeated_label_def)
  show ?case
  proof (cases "columns_labelled df c")
    case Nil
    then have out_of: "c \<notin> set (frame_columns df)" by (simp add: in_frame_columns)
    have "copy_columns df m (res, out @ [ColumnNotFound c]) =
        Inr (res @ List.map_filter
                  (\<lambda>(f, c). case columns_labelled df c of [s] \<Rightarrow> Some (f, s) | _ \<Rightarrow> None) m,
             (out @ [ColumnNotFound c]) @ map (\<lambda>(f, c). ColumnNotFound c)
                  (filter (\<lambda>(f, c). c \<notin> set (frame_columns df)) m))"
      using Cons.prems(1,2) rest by (intro Cons.IH) auto
    with Nil out_of item show ?thesis by (simp add: List.map_filter_simps)
  next
    case (Cons series more)
    with here have one: "columns_labelled df c = [series]" by simp
    then have in_df: "c \<in> set (frame_columns df)" by (simp add: in_frame_columns)
    have fresh: "f \<notin> fst ` set res" using Cons.prems(2) item by simp
    have "copy_columns df m (res @ [(f, series)], out) =
        Inr ((res @ [(f, series)]) @ List.map_filter
                  (\<lambda>(f, c). case columns_labelled df c of [s] \<Rightarrow> Some (f, s) | _ \<Rightarrow> None) m,
             out @ map (\<lambda>(f, c). ColumnNotFound c)
                  (filter (\<lambda>(f, c). c \<notin> set (frame_columns df)) m))"
      using Cons.prems(1,2) item rest by (intro Cons.IH) (auto simp: rev_image_eqI)
    with one in_df item fresh show ?thesis
      by (simp add: List.map_filter_simps dict_set_absent)
  qed
qed

lemma selected_keys:
  "no_repeated_label df m \<Longrightarrow>
   map fst (List.map_filter
              (\<lambda>(f, c). case columns_labelled df c of [s] \<Rightarrow> Some (f, s) | _ \<Rightarrow> None) m) =
     map fst (filter (\<lambda>(f, c). c \<in> set (frame_columns df)) m)"
proof (induction m)
  case Nil
  then show ?case by (simp add: List.map_filter_simps)
next
  case (Cons item m)
  obtain f c where item: "item = (f, c)" by (cases item)
  have rest: "no_repeated_label df m" and here: "length (columns_labelled df c) \<le> 1"
    using Cons.prems item by (simp_all add: no_repeated_label_def)
  show ?case
  proof (cases "columns_labelled df c")
    case Nil
    with Cons.IH [OF rest] item show ?thesis
      by (simp add: List.map_filter_simps in_frame_columns)
  next
    case (Cons series more)
    with here have "columns_labelled df c = [series]" by simp
    with Cons.IH [OF rest] item show ?thesis
      by (simp add: List.map_filter_simps in_frame_columns)
  qed
qed

lemma selected_member:
  "(k, s) \<in> set (List.map_filter
              (\<lambda>(f, c). case columns_labelled df c of [s] \<Rightarrow> Some (f, s) | _ \<Rightarrow> None) m)
     \<Longrightarrow> \<exists>c. (k, c) \<in> set m"
proof (induction m)
  case Nil
  then show ?case by (simp add: List.map_filter_simps)
next
  case (Cons item m)
  obtain g d where item: "item = (g, d)" by (cases item)
  show ?case
  proof (cases "(k, s) \<in> set (List.map_filter
              (\<lambda>(f, c). case columns_labelled df c of [s] \<Rightarrow> Some (f, s) | _ \<Rightarrow> None) m)")
    case True
    from Cons.IH [OF this] show ?thesis by auto
  next
    case False
    with Cons.prems item have "k = g"
      by (auto simp: List.map_filter_simps split: list.splits)
    with item show ?thesis by auto
  qed
qed

lemma selected_subset:
  "fst ` set (List.map_filter
              (\<lambda>(f, c). case columns_labelled df c of [s] \<Rightarrow> Some (f, s) | _ \<Rightarrow> None) m)
     \<subseteq> fst ` set m"
  using selected_member [of _ _ df m] by force

lemma selected_columns:
  assumes "distinct (map fst m)" and "(f, c) \<in> set m"
    and "c \<in> set (frame_columns df)" and "no_repeated_label df m"
  shows "columns_labelled
           (List.map_filter
              (\<lambda>(f, c). case columns_labelled df c of [s] \<Rightarrow> Some (f, s) | _ \<Rightarrow> None) m) f =
         columns_labelled df c"
  using assms
proof (induction m)
  case Nil
  then show ?case by simp
next
  case (Cons item m)
  let ?g = "\<lambda>(f, c). case columns_labelled df c of [s] \<Rightarrow> Some (f, s) | _ \<Rightarrow> None"
  obtain g d where item: "item = (g, d)" by (cases item)
  have rest: "no_repeated_label df m" and here: "length (columns_labelled df d) \<le> 1"
    using Cons.prems(4) item by (simp_all add: no_repeated_label_def)
  show ?case
  proof (cases "g = f")
    case True
    with Cons.prems(1,2) item have cd: "d = c" by (auto simp: rev_image_eqI)
    from Cons.prems(3) here cd obtain series where one: "columns_labelled df c = [series]"
      by (cases "columns_labelled df c") (auto simp: in_frame_columns)
    have "f \<notin> fst ` set m" using Cons.prems(1) item True by simp
    with selected_subset [of df m] have "f \<notin> fst ` set (List.map_filter ?g m)" by blast
    then have "columns_labelled (List.map_filter ?g m) f = []"
      by (rule columns_labelled_absent)
    with True cd one item show ?thesis
      by (simp add: List.map_filter_simps columns_labelled_def)
  next
    case False
    with Cons.prems item have "(f, c) \<in> set m" by auto
    with Cons.prems rest have ih: "columns_labelled (List.map_filter ?g m) f = columns_labelled df c"
      by (intro Cons.IH) auto
    show ?thesis
    proof (cases "columns_labelled df d")
      case Nil
      with ih item show ?thesis by (simp add: List.map_filter_simps)
    next
      case (Cons series more)
      with here have "columns_labelled df d = [series]" by simp
      with ih item False show ?thesis
        by (simp add: List.map_filter_simps columns_labelled_def)
    qed
  qed
qed

lemma extract_features_given:
  assumes "distinct (dict_keys mapping)" and "no_repeated_label df mapping"
  shows "\<exists>out. extract_features rc self df (Some mapping) =
       Inr (List.map_filter
              (\<lambda>(f, c). case columns_labelled df c of [s] \<Rightarrow> Some (f, s) | _ \<Rightarrow> None) mapping,
            out) \<and>
       set (map (\<lambda>(f, c). ColumnNotFound c)
              (filter (\<lambda>(f, c). c \<notin> set (frame_columns df)) mapping)) \<subseteq> set out"
proof -
  have "copy_columns df mapping ([], []) =
     Inr ([] @ List.map_filter
              (\<lambda>(f, c). case columns_labelled df c of [s] \<Rightarrow> Some (f, s) | _ \<Rightarrow> None) mapping,
          [] @ map (\<lambda>(f, c). ColumnNotFound c)
              (filter (\<lambda>(f, c). c \<notin> set (frame_columns df)) mapping))"
    using assms by (intro copy_columns_result) (simp_all add: dict_keys_def)
  then show ?thesis
    by (auto simp: extract_features_def Let_def)
qed

text \<open>A pair of the mapping whose label stands over several columns ends the loop with
  the \<^verbatim>\<open>ValueError\<close> of the assignment, at that pair or at an earlier one.\<close>

lemma copy_columns_repeated_label:
  assumes "(f, c) \<in> set m" and "1 < length (columns_labelled df c)"
  shows "\<exists>msg. copy_columns df m acc = Inl (ValueError msg)"
  using assms(1)
proof (induction m arbitrary: acc)
  case Nil
  then show ?case by simp
next
  case (Cons item m)
  obtain g d where item: "item = (g, d)" by (cases item)
  obtain res out where acc: "acc = (res, out)" by (cases acc)
  show ?case
  proof (cases "item = (f, c)")
    case True
    have "c \<in> set (frame_columns df)"
      using assms(2) by (auto simp: in_frame_columns)
    with True assms(2) acc show ?thesis
      by (cases "columns_labelled df c") (auto split: list.splits)
  next
    case False
    with Cons.prems have "(f, c) \<in> set m" by simp
    from Cons.IH [OF this] item acc show ?thesis
      by (auto split: list.splits)
  qed
qed

lemma extract_features_repeated_label:
  assumes "(f, c) \<in> set mapping" and "1 < length (columns_labelled df c)"
  shows "\<exists>msg. extract_features rc self df (Some mapping) = Inl (ValueError msg)"
proof -
  from copy_columns_repeated_label [OF assms, of "([], [])"] obtain msg where
    "copy_columns df mapping ([], []) = Inl (ValueError msg)" by blast
  then show ?thesis by (simp add: extract_features_def)
qed

subsection \<open>\<^verbatim>\<open>rfind\<close> and \<^verbatim>\<open>splitext\<close>\<close>

lemma rfind_bounds: "- 1 \<le> rfind s c \<and> rfind s c < int (length s)"
  by (induction s) (auto simp: Let_def)

lemma rfind_absent: "c \<notin> set s \<Longrightarrow> rfind s c = - 1"
  by (induction s) (auto simp: Let_def)

lemma rfind_append_absent: "c \<notin> set t \<Longrightarrow> rfind (s @ t) c = rfind s c"
  by (induction s) (auto simp: Let_def rfind_absent)

lemma rfind_at: "c \<notin> set t \<Longrightarrow> rfind (s @ c # t) c = int (length s)"
  by (induction s) (auto simp: Let_def rfind_absent)

lemma rfind_not_last: "s \<noteq> [] \<Longrightarrow> last s \<noteq> c \<Longrightarrow> rfind s c < int (length s) - 1"
proof (induction s)
  case Nil
  then show ?case by simp
next
  case (Cons x s)
  show ?case
  proof (cases "s = []")
    case True
    with Cons.prems show ?thesis by simp
  next
    case False
    with Cons have "rfind s c < int (length s) - 1" by simp
    then show ?thesis by (auto simp: Let_def)
  qed
qed

lemma splitext_tsv:
  assumes "stem \<noteq> []" and "last stem \<noteq> CHR ''.''" and "last stem \<noteq> CHR ''/''"
  shows "splitext (stem @ ''.tsv'') = (stem, ''.tsv'')"
proof -
  have dot: "rfind (stem @ ''.tsv'') (CHR ''.'') = int (length stem)"
    using rfind_at [of "CHR ''.''" "''tsv''" stem] by simp
  have sep: "rfind (stem @ ''.tsv'') (CHR ''/'') = rfind stem (CHR ''/'')"
    by (rule rfind_append_absent) simp
  have lt: "rfind stem (CHR ''/'') < int (length stem) - 1"
    using assms by (intro rfind_not_last)
  have ge: "- 1 \<le> rfind stem (CHR ''/'')"
    using rfind_bounds by blast
  define k where "k = nat (rfind stem (CHR ''/'') + 1)"
  have k: "k < length stem" using lt ge by (simp add: k_def)
  then have "last stem \<in> set (drop k stem)"
    by (metis drop_eq_Nil last_drop last_in_set not_le)
  then have "list_ex (\<lambda>ch. ch \<noteq> CHR ''.'') (drop k stem)"
    using assms(2) by (auto simp: list_ex_iff)
  then show ?thesis
    using dot sep lt k_def by (simp add: splitext_def)
qed

subsection \<open>Evaluations on the built-in registry\<close>

lemma default_keys_distinct: "distinct (dict_keys (feature_patterns mapper_init))"
  by code_simp

lemma default_patterns_compile: "patterns_compile re_compile_plain (feature_patterns mapper_init)"
  by code_simp

lemma match_t_batt_temp:
  "find_matching_columns re_compile_plain mapper_init [''t_batt'', ''temp''] =
     Inr [(''temperature'', ''temp'')]"
  by code_simp

section \<open>The claims\<close>

subsection \<open>Matching\<close>

text \<open>
  C1. For every list of column names and every registry (a dictionary: its feature names
  are distinct) whose patterns are regular expressions that \<^verbatim>\<open>re.compile\<close> accepts,
  \<^verbatim>\<open>find_matching_columns\<close> returns, without raising, exactly the mapping of the
  greedy algorithm: features in declaration order, each feature's patterns in declared
  order, the columns in the given order; a feature is bound to the first column that
  contains a match of the pattern and is not bound to an earlier feature, its remaining
  patterns are then skipped, and a feature with no eligible column is absent.
\<close>

theorem find_matching_columns_is_greedy:
  assumes "distinct (dict_keys (feature_patterns self))"
    and "patterns_compile rc (feature_patterns self)"
  shows "find_matching_columns rc self df_columns =
           Inr (greedy_mapping rc (feature_patterns self) df_columns [])"
  using assms by (rule find_matching_columns_greedy)

theorem find_matching_columns_is_greedy_witness:
  "distinct (dict_keys (feature_patterns mapper_init)) \<and>
   patterns_compile re_compile_plain (feature_patterns mapper_init) \<and>
   find_matching_columns re_compile_plain mapper_init [''Cap_Ah'', ''Voltage_V'', ''Current_A''] =
     Inr (greedy_mapping re_compile_plain (feature_patterns mapper_init)
            [''Cap_Ah'', ''Voltage_V'', ''Current_A''] []) \<and>
   greedy_mapping re_compile_plain (feature_patterns mapper_init)
       [''Cap_Ah'', ''Voltage_V'', ''Current_A''] [] =
     [(''capacity'', ''Cap_Ah''), (''voltage'', ''Voltage_V''), (''current'', ''Current_A'')]"
proof -
  have g: "greedy_mapping re_compile_plain (feature_patterns mapper_init)
       [''Cap_Ah'', ''Voltage_V'', ''Current_A''] [] =
     [(''capacity'', ''Cap_Ah''), (''voltage'', ''Voltage_V''), (''current'', ''Current_A'')]"
    by code_simp
  from find_matching_columns_is_greedy [OF default_keys_distinct default_patterns_compile]
    default_keys_distinct default_patterns_compile g
  show ?thesis by simp
qed

text \<open>
  C2. In the mapping \<^verbatim>\<open>find_matching_columns\<close> returns, no column name is the value
  of more than one feature.
\<close>

theorem find_matching_columns_injective:
  assumes "find_matching_columns rc self df_columns = Inr mapping"
  shows "distinct (map snd mapping)"
  using find_matching_columns_values [OF assms] by simp

theorem find_matching_columns_injective_witness:
  "find_matching_columns re_compile_plain mapper_init [''Capacity_Ah'', ''I''] =
     Inr [(''capacity'', ''Capacity_Ah''), (''current'', ''I'')] \<and>
   distinct (map snd [(''capacity'', ''Capacity_Ah''), (''current'', ''I'')])"
proof -
  have e: "find_matching_columns re_compile_plain mapper_init [''Capacity_Ah'', ''I''] =
     Inr [(''capacity'', ''Capacity_Ah''), (''current'', ''I'')]"
    by code_simp
  from find_matching_columns_injective [OF e] e show ?thesis by simp
qed

text \<open>
  C3. Every value of the mapping \<^verbatim>\<open>find_matching_columns\<close> returns is one of the
  input column names.
\<close>

theorem find_matching_columns_values_in_columns:
  assumes "find_matching_columns rc self df_columns = Inr mapping"
  shows "set (map snd mapping) \<subseteq> set df_columns"
  using find_matching_columns_values [OF assms] by simp

theorem find_matching_columns_values_in_columns_witness:
  "find_matching_columns re_compile_plain mapper_init [''Time_s'', ''Volt'', ''Temp_C''] =
     Inr [(''voltage'', ''Volt''), (''current'', ''Time_s''), (''temperature'', ''Temp_C'')] \<and>
   set (map snd [(''voltage'', ''Volt''), (''current'', ''Time_s''), (''temperature'', ''Temp_C'')])
     \<subseteq> set [''Time_s'', ''Volt'', ''Temp_C'']"
proof -
  have e: "find_matching_columns re_compile_plain mapper_init [''Time_s'', ''Volt'', ''Temp_C''] =
     Inr [(''voltage'', ''Volt''), (''current'', ''Time_s''), (''temperature'', ''Temp_C'')]"
    by code_simp
  from find_matching_columns_values_in_columns [OF e] e show ?thesis by simp
qed

text \<open>
  C4, as the code has it. With the built-in patterns, \<^verbatim>\<open>find_matching_columns\<close> on the
  columns \<^verbatim>\<open>["t_batt", "temp"]\<close> binds the temperature feature to \<^verbatim>\<open>"temp"\<close> and
  binds nothing else, so \<^verbatim>\<open>"t_batt"\<close> is the column left unconsumed: in the built-in
  list the pattern \<^verbatim>\<open>temp\<close> is second and \<^verbatim>\<open>t_batt\<close> sixth, and the first
  pattern with an eligible column decides.
\<close>

theorem t_batt_temp_binds_temp:
  "find_matching_columns re_compile_plain mapper_init [''t_batt'', ''temp''] =
     Inr [(''temperature'', ''temp'')]"
  by (rule match_t_batt_temp)

text \<open>
  C4 as stated fails: on these columns the temperature feature is not bound to
  \<^verbatim>\<open>"t_batt"\<close> with \<^verbatim>\<open>"temp"\<close> left over.
\<close>

theorem t_batt_temp_counterexample:
  "\<not> (case find_matching_columns re_compile_plain mapper_init [''t_batt'', ''temp''] of
         Inl e \<Rightarrow> False
       | Inr mapping \<Rightarrow>
           dict_get mapping ''temperature'' = Some ''t_batt'' \<and> ''temp'' \<notin> snd ` set mapping)"
  by (simp add: match_t_batt_temp dict_get_def)

subsection \<open>Extraction\<close>

lemma extract_voltage_only:
  "extract_features re_compile_plain mapper_init [(''Voltage_V'', [12::nat, 13])]
       (Some [(''voltage'', ''Voltage_V''), (''current'', ''Current_A'')]) =
     Inr ([(''voltage'', [12, 13])],
          [ColumnNotFound ''Current_A'',
           MissingFeatures {''capacity'', ''temperature'', ''discharge_time'', ''charge_time''}])"
  by code_simp

text \<open>
  C5, as the code has it. For every mapping (a dictionary: its keys are distinct) and
  every table in which no column named by the mapping stands under a repeated label,
  \<^verbatim>\<open>extract_features\<close> returns a table whose columns are exactly the keys of the
  mapping whose column is present in the input table, in mapping iteration order, each
  holding the values of its source column as they are. When every mapped column is
  present, the columns are exactly the keys of the mapping.
\<close>

theorem extract_features_columns:
  assumes "distinct (dict_keys mapping)" and "no_repeated_label df mapping"
  shows "\<exists>result_df out.
     extract_features rc self df (Some mapping) = Inr (result_df, out) \<and>
     frame_columns result_df =
       map fst (filter (\<lambda>(f, c). c \<in> set (frame_columns df)) mapping) \<and>
     (\<forall>(f, c) \<in> set mapping.
        c \<in> set (frame_columns df) \<longrightarrow> columns_labelled result_df f = columns_labelled df c) \<and>
     (list_all (\<lambda>(f, c). c \<in> set (frame_columns df)) mapping \<longrightarrow>
        frame_columns result_df = dict_keys mapping)"
proof -
  let ?sel = "List.map_filter
      (\<lambda>(f, c). case columns_labelled df c of [s] \<Rightarrow> Some (f, s) | _ \<Rightarrow> None) mapping"
  from extract_features_given [OF assms, of rc self] obtain out where
    run: "extract_features rc self df (Some mapping) = Inr (?sel, out)" by blast
  have keys: "frame_columns ?sel = map fst (filter (\<lambda>(f, c). c \<in> set (frame_columns df)) mapping)"
    using assms(2) by (simp add: frame_columns_def selected_keys)
  have vals: "\<forall>(f, c) \<in> set mapping.
      c \<in> set (frame_columns df) \<longrightarrow> columns_labelled ?sel f = columns_labelled df c"
    using assms selected_columns [of mapping _ _ df]
    by (auto simp: dict_keys_def)
  have all: "list_all (\<lambda>(f, c). c \<in> set (frame_columns df)) mapping \<longrightarrow>
      frame_columns ?sel = dict_keys mapping"
  proof
    assume "list_all (\<lambda>(f, c). c \<in> set (frame_columns df)) mapping"
    then have "filter (\<lambda>(f, c). c \<in> set (frame_columns df)) mapping = mapping"
      by (simp add: list_all_iff)
    with keys show "frame_columns ?sel = dict_keys mapping" by (simp add: dict_keys_def)
  qed
  from run keys vals all show ?thesis by blast
qed

theorem extract_features_columns_witness:
  "distinct (dict_keys [(''voltage'', ''V''), (''temperature'', ''T'')]) \<and>
   no_repeated_label [(''T'', [20::nat, 21]), (''V'', [3, 4]), (''Note'', [0, 0]), (''Note'', [5, 6])]
     [(''voltage'', ''V''), (''temperature'', ''T'')] \<and>
   extract_features re_compile_plain mapper_init
       [(''T'', [20::nat, 21]), (''V'', [3, 4]), (''Note'', [0, 0]), (''Note'', [5, 6])]
       (Some [(''voltage'', ''V''), (''temperature'', ''T'')]) =
     Inr ([(''voltage'', [3, 4]), (''temperature'', [20, 21])],
          [MissingFeatures {''capacity'', ''current'', ''discharge_time'', ''charge_time''}])"
proof -
  have d: "distinct (dict_keys [(''voltage'', ''V''), (''temperature'', ''T'')])"
    by (simp add: dict_keys_def)
  have n: "no_repeated_label
     [(''T'', [20::nat, 21]), (''V'', [3, 4]), (''Note'', [0, 0]), (''Note'', [5, 6])]
     [(''voltage'', ''V''), (''temperature'', ''T'')]"
    by (simp add: no_repeated_label_def columns_labelled_def)
  have e: "extract_features re_compile_plain mapper_init
       [(''T'', [20::nat, 21]), (''V'', [3, 4]), (''Note'', [0, 0]), (''Note'', [5, 6])]
       (Some [(''voltage'', ''V''), (''temperature'', ''T'')]) =
     Inr ([(''voltage'', [3, 4]), (''temperature'', [20, 21])],
          [MissingFeatures {''capacity'', ''current'', ''discharge_time'', ''charge_time''}])"
    by code_simp
  from extract_features_columns [OF d n, of re_compile_plain mapper_init] d n e
  show ?thesis by simp
qed

text \<open>
  C5 as stated fails: the mapping below names a column the table does not have, and the
  returned table has one column for the two keys of the mapping.
\<close>

theorem extract_features_columns_counterexample:
  "\<not> (case extract_features re_compile_plain mapper_init [(''Voltage_V'', [12::nat, 13])]
            (Some [(''voltage'', ''Voltage_V''), (''current'', ''Current_A'')]) of
         Inl e \<Rightarrow> False
       | Inr (result_df, out) \<Rightarrow>
           columns_are_keys result_df [(''voltage'', ''Voltage_V''), (''current'', ''Current_A'')])"
  by (simp add: extract_voltage_only columns_are_keys_def dict_keys_def frame_columns_def)

text \<open>
  C6, as the code has it. When the mapping holds a pair (feature, column) whose column
  is absent from the table, and no column named by the mapping stands under a repeated
  label of the table, \<^verbatim>\<open>extract_features\<close> raises nothing: it returns a table,
  prints the warning for that column, leaves the feature out of the table, and goes on
  with the other pairs, each of which with a present column gets that column's values.
\<close>

theorem extract_features_skips_absent_column:
  assumes "distinct (dict_keys mapping)"
    and "(f, c) \<in> set mapping"
    and "c \<notin> set (frame_columns df)"
    and "no_repeated_label df mapping"
  shows "\<exists>result_df out.
     extract_features rc self df (Some mapping) = Inr (result_df, out) \<and>
     ColumnNotFound c \<in> set out \<and>
     f \<notin> set (frame_columns result_df) \<and>
     frame_columns result_df =
       map fst (filter (\<lambda>(g, d). d \<in> set (frame_columns df)) mapping) \<and>
     (\<forall>(g, d) \<in> set mapping.
        d \<in> set (frame_columns df) \<longrightarrow> columns_labelled result_df g = columns_labelled df d)"
proof -
  let ?sel = "List.map_filter
      (\<lambda>(f, c). case columns_labelled df c of [s] \<Rightarrow> Some (f, s) | _ \<Rightarrow> None) mapping"
  from extract_features_given [OF assms(1) assms(4), of rc self] obtain out where
    run: "extract_features rc self df (Some mapping) = Inr (?sel, out)"
    and warn: "set (map (\<lambda>(f, c). ColumnNotFound c)
                 (filter (\<lambda>(f, c). c \<notin> set (frame_columns df)) mapping)) \<subseteq> set out"
    by blast
  from assms(2,3) have "ColumnNotFound c \<in> set (map (\<lambda>(f, c). ColumnNotFound c)
                 (filter (\<lambda>(f, c). c \<notin> set (frame_columns df)) mapping))"
    by force
  with warn have w: "ColumnNotFound c \<in> set out" by blast
  have keys: "frame_columns ?sel = map fst (filter (\<lambda>(g, d). d \<in> set (frame_columns df)) mapping)"
    using assms(4) by (simp add: frame_columns_def selected_keys)
  have absent: "f \<notin> set (frame_columns ?sel)"
  proof
    assume "f \<in> set (frame_columns ?sel)"
    then have "f \<in> fst ` set (filter (\<lambda>(g, d). d \<in> set (frame_columns df)) mapping)"
      using keys by simp
    then obtain d where in_m: "(f, d) \<in> set mapping" and has: "d \<in> set (frame_columns df)"
      by auto
    from assms(1) assms(2) in_m have "d = c"
      by (simp add: dict_keys_def eq_key_imp_eq_value)
    with has assms(3) show False by simp
  qed
  have vals: "\<forall>(g, d) \<in> set mapping.
      d \<in> set (frame_columns df) \<longrightarrow> columns_labelled ?sel g = columns_labelled df d"
    using assms(1,4) selected_columns [of mapping _ _ df]
    by (auto simp: dict_keys_def)
  from run w absent keys vals show ?thesis by blast
qed

theorem extract_features_skips_absent_column_witness:
  "distinct (dict_keys [(''voltage'', ''V''), (''current'', ''I''), (''temperature'', ''T'')]) \<and>
   (''current'', ''I'') \<in> set [(''voltage'', ''V''), (''current'', ''I''), (''temperature'', ''T'')] \<and>
   ''I'' \<notin> set (frame_columns [(''V'', [3::nat, 4]), (''T'', [20, 21])]) \<and>
   no_repeated_label [(''V'', [3::nat, 4]), (''T'', [20, 21])]
     [(''voltage'', ''V''), (''current'', ''I''), (''temperature'', ''T'')] \<and>
   extract_features re_compile_plain mapper_init [(''V'', [3::nat, 4]), (''T'', [20, 21])]
       (Some [(''voltage'', ''V''), (''current'', ''I''), (''temperature'', ''T'')]) =
     Inr ([(''voltage'', [3, 4]), (''temperature'', [20, 21])],
          [ColumnNotFound ''I'',
           MissingFeatures {''capacity'', ''discharge_time'', ''charge_time''}])"
proof -
  have d: "distinct (dict_keys [(''voltage'', ''V''), (''current'', ''I''), (''temperature'', ''T'')])"
    by (simp add: dict_keys_def)
  have m: "(''current'', ''I'') \<in> set [(''voltage'', ''V''), (''current'', ''I''), (''temperature'', ''T'')]"
    by simp
  have a: "''I'' \<notin> set (frame_columns [(''V'', [3::nat, 4]), (''T'', [20, 21])])"
    by (simp add: frame_columns_def)
  have n: "no_repeated_label [(''V'', [3::nat, 4]), (''T'', [20, 21])]
     [(''voltage'', ''V''), (''current'', ''I''), (''temperature'', ''T'')]"
    by (simp add: no_repeated_label_def columns_labelled_def)
  have e: "extract_features re_compile_plain mapper_init [(''V'', [3::nat, 4]), (''T'', [20, 21])]
       (Some [(''voltage'', ''V''), (''current'', ''I''), (''temperature'', ''T'')]) =
     Inr ([(''voltage'', [3, 4]), (''temperature'', [20, 21])],
          [ColumnNotFound ''I'',
           MissingFeatures {''capacity'', ''discharge_time'', ''charge_time''}])"
    by code_simp
  from extract_features_skips_absent_column [OF d m a n, of re_compile_plain mapper_init]
    d m a n e show ?thesis by simp
qed

text \<open>
  C6 as stated fails: the mapping below holds a pair with an absent column, the table
  has the label of another pair twice, and the call raises \<^verbatim>\<open>ValueError\<close> at
  that pair instead of returning a table.
\<close>

theorem extract_features_skips_absent_column_counterexample:
  "(''current'', ''I'') \<in> set [(''current'', ''I''), (''voltage'', ''V'')] \<and>
   ''I'' \<notin> set (frame_columns [(''V'', [11::nat, 13]), (''V'', [12, 14])]) \<and>
   extract_features re_compile_plain mapper_init [(''V'', [11::nat, 13]), (''V'', [12, 14])]
       (Some [(''current'', ''I''), (''voltage'', ''V'')]) =
     Inl (ValueError
            ''Cannot set a DataFrame with multiple columns to the single column voltage'')"
proof -
  have e: "extract_features re_compile_plain mapper_init [(''V'', [11::nat, 13]), (''V'', [12, 14])]
       (Some [(''current'', ''I''), (''voltage'', ''V'')]) =
     Inl (ValueError
            ''Cannot set a DataFrame with multiple columns to the single column voltage'')"
    by code_simp
  then show ?thesis by (simp add: frame_columns_def)
qed

subsection \<open>Loading\<close>

lemma load_dataset_else:
  assumes "lower (snd (splitext file_path)) \<notin> supported_extensions"
  shows "load_dataset pd file_path kwargs =
     Inl (ValueError (''Unsupported file format: '' @ lower (snd (splitext file_path))))"
  using assms by (simp add: load_dataset_def supported_extensions_def Let_def)

lemma lower_tsv: "lower ''.tsv'' = ''.tsv''"
  by code_simp

lemma tsv_unsupported: "''.tsv'' \<notin> supported_extensions"
  by (simp add: supported_extensions_def)

text \<open>
  C7. For every path whose extension, in lower case, is none of \<^verbatim>\<open>.csv\<close>,
  \<^verbatim>\<open>.xlsx\<close>, \<^verbatim>\<open>.xls\<close>, \<^verbatim>\<open>.parquet\<close>, \<^verbatim>\<open>.json\<close>,
  \<^verbatim>\<open>load_dataset\<close> raises the \<^verbatim>\<open>ValueError\<close> for an unsupported format,
  whose message carries that extension (in lower case, as the code compares it) and calls
  no reader. In particular a path ending in \<^verbatim>\<open>.tsv\<close>, after a file name that does
  not end in a dot or a slash, raises with the extension \<^verbatim>\<open>.tsv\<close>.
\<close>

theorem load_dataset_unsupported:
  "(lower (snd (splitext file_path)) \<notin> supported_extensions \<longrightarrow>
      load_dataset pd file_path kwargs =
        Inl (ValueError (''Unsupported file format: '' @ lower (snd (splitext file_path))))) \<and>
   (stem \<noteq> [] \<and> last stem \<noteq> CHR ''.'' \<and> last stem \<noteq> CHR ''/'' \<longrightarrow>
      load_dataset pd (stem @ ''.tsv'') kwargs =
        Inl (ValueError ''Unsupported file format: .tsv''))"
proof (intro conjI impI)
  assume "lower (snd (splitext file_path)) \<notin> supported_extensions"
  then show "load_dataset pd file_path kwargs =
        Inl (ValueError (''Unsupported file format: '' @ lower (snd (splitext file_path))))"
    by (rule load_dataset_else)
next
  assume "stem \<noteq> [] \<and> last stem \<noteq> CHR ''.'' \<and> last stem \<noteq> CHR ''/''"
  then have "splitext (stem @ ''.tsv'') = (stem, ''.tsv'')"
    by (simp add: splitext_tsv)
  then have ext: "lower (snd (splitext (stem @ ''.tsv''))) = ''.tsv''"
    by (simp add: lower_tsv)
  with tsv_unsupported
  have "lower (snd (splitext (stem @ ''.tsv''))) \<notin> supported_extensions" by simp
  from load_dataset_else [OF this, of pd kwargs] ext
  show "load_dataset pd (stem @ ''.tsv'') kwargs =
        Inl (ValueError ''Unsupported file format: .tsv'')"
    by simp
qed

theorem load_dataset_unsupported_witness:
  "lower (snd (splitext ''runs/Cell_7.TXT'')) = ''.txt'' \<and>
   ''.txt'' \<notin> supported_extensions \<and>
   load_dataset no_files ''runs/Cell_7.TXT'' () =
     Inl (ValueError ''Unsupported file format: .txt'') \<and>
   ''data'' \<noteq> [] \<and> last ''data'' \<noteq> CHR ''.'' \<and> last ''data'' \<noteq> CHR ''/'' \<and>
   load_dataset no_files ''data.tsv'' () = Inl (ValueError ''Unsupported file format: .tsv'')"
proof -
  have e: "lower (snd (splitext ''runs/Cell_7.TXT'')) = ''.txt''" by code_simp
  have u: "''.txt'' \<notin> supported_extensions" by (simp add: supported_extensions_def)
  have s: "''data'' \<noteq> [] \<and> last ''data'' \<noteq> CHR ''.'' \<and> last ''data'' \<noteq> CHR ''/''" by simp
  from load_dataset_unsupported [of "''runs/Cell_7.TXT''" no_files "()" "''data''"] e u s
  show ?thesis by simp
qed

subsection \<open>Missing values\<close>

lemma handle_missing_values_mean:
  "handle_missing_values pd h df ''mean'' =
     (h @ [h ! df, fillna_mean pd (h ! df)], Suc (length h),
      [StrategyUsed ''mean'',
       ShapeReport (shape pd ((h @ [h ! df, fillna_mean pd (h ! df)]) ! df))
                   (shape pd (fillna_mean pd (h ! df))),
       MissingCountReport (isnull_sum_sum pd ((h @ [h ! df, fillna_mean pd (h ! df)]) ! df))
                          (isnull_sum_sum pd (fillna_mean pd (h ! df)))])"
  by (simp add: handle_missing_values_def call_method_def new_object_def nth_append)

lemma handle_missing_values_unknown:
  assumes "strategy \<notin> {''mean'', ''median'', ''drop'', ''forward_fill'', ''backward_fill''}"
  shows "handle_missing_values pd h df strategy =
     (h @ [h ! df, fillna_mean pd (h ! df)], Suc (length h),
      [UnknownStrategy strategy, StrategyUsed strategy,
       ShapeReport (shape pd ((h @ [h ! df, fillna_mean pd (h ! df)]) ! df))
                   (shape pd (fillna_mean pd (h ! df))),
       MissingCountReport (isnull_sum_sum pd ((h @ [h ! df, fillna_mean pd (h ! df)]) ! df))
                          (isnull_sum_sum pd (fillna_mean pd (h ! df)))])"
  using assms
  by (simp add: handle_missing_values_def call_method_def new_object_def nth_append)

text \<open>
  C8. For every table and every strategy string outside \<^verbatim>\<open>mean\<close>,
  \<^verbatim>\<open>median\<close>, \<^verbatim>\<open>drop\<close>, \<^verbatim>\<open>forward_fill\<close>, \<^verbatim>\<open>backward_fill\<close>,
  \<^verbatim>\<open>handle_missing_values\<close> returns (it has no raise of its own) the same table,
  in the same heap, as with the strategy \<^verbatim>\<open>mean\<close>; it prints the warning for the
  unknown strategy first, and then the same reports but for the strategy's name.
\<close>

theorem handle_missing_values_fallback:
  assumes "strategy \<notin> {''mean'', ''median'', ''drop'', ''forward_fill'', ''backward_fill''}"
  shows "returned_frame (handle_missing_values pd h df strategy) =
           returned_frame (handle_missing_values pd h df ''mean'') \<and>
         fst (handle_missing_values pd h df strategy) = fst (handle_missing_values pd h df ''mean'') \<and>
         fst (snd (handle_missing_values pd h df strategy)) =
           fst (snd (handle_missing_values pd h df ''mean'')) \<and>
         snd (snd (handle_missing_values pd h df strategy)) =
           UnknownStrategy strategy #
             StrategyUsed strategy # tl (snd (snd (handle_missing_values pd h df ''mean'')))"
  by (simp add: handle_missing_values_unknown [OF assms] handle_missing_values_mean
      returned_frame_def)

theorem handle_missing_values_fallback_witness:
  "''bogus'' \<notin> {''mean'', ''median'', ''drop'', ''forward_fill'', ''backward_fill''} \<and>
   returned_frame (handle_missing_values num_pandas
       [[(''voltage'', [None, Some 1, None, Some 2]), (''current'', [Some 4, None, Some 6, Some 7])]]
       0 ''bogus'') =
     [(''voltage'', [Some (3 / 2), Some 1, Some (3 / 2), Some 2]),
      (''current'', [Some 4, Some (17 / 3), Some 6, Some 7])] \<and>
   returned_frame (handle_missing_values num_pandas
       [[(''voltage'', [None, Some 1, None, Some 2]), (''current'', [Some 4, None, Some 6, Some 7])]]
       0 ''mean'') =
     [(''voltage'', [Some (3 / 2), Some 1, Some (3 / 2), Some 2]),
      (''current'', [Some 4, Some (17 / 3), Some 6, Some 7])]"
proof -
  have b: "''bogus'' \<notin> {''mean'', ''median'', ''drop'', ''forward_fill'', ''backward_fill''}"
    by simp
  have m: "returned_frame (handle_missing_values num_pandas
       [[(''voltage'', [None, Some 1, None, Some 2]), (''current'', [Some 4, None, Some 6, Some 7])]]
       0 ''mean'') =
     [(''voltage'', [Some (3 / 2), Some 1, Some (3 / 2), Some 2]),
      (''current'', [Some 4, Some (17 / 3), Some 6, Some 7])]"
    by code_simp
  from handle_missing_values_fallback [OF b, of num_pandas
       "[[(''voltage'', [None, Some 1, None, Some 2]), (''current'', [Some 4, None, Some 6, Some 7])]]" 0]
    b m show ?thesis by simp
qed

text \<open>
  C10. For every table and every strategy string, \<^verbatim>\<open>handle_missing_values\<close>
  leaves its input as it was: the caller's frame, and every frame that existed before
  the call, is unchanged after it, and the result is another, new object.
\<close>

theorem handle_missing_values_leaves_input:
  assumes "df < length h"
  shows "case handle_missing_values pd h df strategy of
           (h', df_clean, out) \<Rightarrow>
             h' ! df = h ! df \<and> take (length h) h' = h \<and>
             df_clean \<noteq> df \<and> df_clean < length h'"
  using assms
  by (simp add: handle_missing_values_def call_method_def new_object_def nth_append)

theorem handle_missing_values_leaves_input_witness:
  "(0::nat) < length [[(''voltage'', [None, Some (1::rat)]), (''current'', [Some 4, Some 5])]] \<and>
   handle_missing_values num_pandas
       [[(''voltage'', [None, Some 1]), (''current'', [Some 4, Some 5])]] 0 ''drop'' =
     ([[(''voltage'', [None, Some 1]), (''current'', [Some 4, Some 5])],
       [(''voltage'', [None, Some 1]), (''current'', [Some 4, Some 5])],
       [(''voltage'', [Some 1]), (''current'', [Some 5])]],
      2,
      [StrategyUsed ''drop'', ShapeReport (2, 2) (1, 2), MissingCountReport 1 0])"
proof -
  have l: "(0::nat) < length [[(''voltage'', [None, Some (1::rat)]), (''current'', [Some 4, Some 5])]]"
    by simp
  have e: "handle_missing_values num_pandas
       [[(''voltage'', [None, Some 1]), (''current'', [Some 4, Some 5])]] 0 ''drop'' =
     ([[(''voltage'', [None, Some 1]), (''current'', [Some 4, Some 5])],
       [(''voltage'', [None, Some 1]), (''current'', [Some 4, Some 5])],
       [(''voltage'', [Some 1]), (''current'', [Some 5])]],
      2,
      [StrategyUsed ''drop'', ShapeReport (2, 2) (1, 2), MissingCountReport 1 0])"
    by code_simp
  from handle_missing_values_leaves_input [OF l, of num_pandas "''drop''"] l e
  show ?thesis by simp
qed

subsection \<open>Custom patterns\<close>

lemma dict_set_keys:
  "dict_keys (dict_set d k v) = (if k \<in> set (dict_keys d) then dict_keys d else dict_keys d @ [k])"
  by (induction d) (force simp: dict_keys_def)+

lemma dict_set_member: "(k, v) \<in> set (dict_set d k v)"
  by (induction d) auto

lemma dict_set_own_entry:
  "distinct (dict_keys d) \<Longrightarrow> filter (\<lambda>(f, ps). f = k) (dict_set d k v) = [(k, v)]"
proof (induction d)
  case Nil
  then show ?case by simp
next
  case (Cons e d)
  obtain k' v' where e: "e = (k', v')" by (cases e)
  show ?case
  proof (cases "k' = k")
    case True
    with Cons.prems e have "k \<notin> fst ` set d" by (simp add: dict_keys_def)
    then have "filter (\<lambda>(f, ps). f = k) d = []"
      by (force simp: filter_empty_conv)
    with True e show ?thesis by simp
  next
    case False
    with Cons e show ?thesis by (simp add: dict_keys_def)
  qed
qed

lemma dict_set_other_entries:
  "filter (\<lambda>(f, ps). f \<noteq> k) (dict_set d k v) = filter (\<lambda>(f, ps). f \<noteq> k) d"
  by (induction d) auto

lemma dict_set_get: "dict_get (dict_set d k v) k = Some v"
  by (induction d) (auto simp: dict_get_def)

lemma replaced_feature_unmatched:
  assumes "distinct (dict_keys (feature_patterns self))"
    and "patterns_compile rc (feature_patterns (add_custom_pattern self feature_name patterns))"
    and "list_all (\<lambda>p. list_all (\<lambda>col. \<not> contains_match rc p col) df_columns) patterns"
  shows "\<exists>mapping. find_matching_columns rc (add_custom_pattern self feature_name patterns) df_columns
             = Inr mapping \<and> \<not> dict_has mapping feature_name"
proof -
  let ?self = "add_custom_pattern self feature_name patterns"
  let ?fp = "feature_patterns ?self"
  have fp: "?fp = dict_set (feature_patterns self) feature_name patterns"
    by (simp add: add_custom_pattern_def Let_def)
  have d: "distinct (dict_keys ?fp)"
    using assms(1) by (simp add: fp dict_set_keys)
  have run: "find_matching_columns rc ?self df_columns = Inr (greedy_mapping rc ?fp df_columns [])"
    using d assms(2) by (rule find_matching_columns_greedy)
  have "feature_name \<notin> fst ` set (greedy_mapping rc ?fp df_columns [])"
  proof
    assume "feature_name \<in> fst ` set (greedy_mapping rc ?fp df_columns [])"
    from greedy_mapping_keys [OF this] obtain ps p c where
      e: "(feature_name, ps) \<in> set ?fp" and p: "p \<in> set ps" and c: "c \<in> set df_columns"
      and m: "contains_match rc p c"
      by auto
    have "(feature_name, patterns) \<in> set ?fp" by (simp add: fp dict_set_member)
    with d e have "ps = patterns"
      by (simp add: dict_keys_def eq_key_imp_eq_value)
    with assms(3) p c m show False by (auto simp: list_all_iff)
  qed
  with run show ?thesis by (simp add: dict_has_def dict_keys_def)
qed

lemma foo_registry_compiles:
  "patterns_compile re_compile_plain
     (feature_patterns (add_custom_pattern mapper_init ''capacity'' [''foo'']))"
  by code_simp

lemma contains_match_foo: "contains_match re_compile_plain ''foo'' col = search_plain ''foo'' col"
proof -
  have "list_all is_word_char ''foo''" by code_simp
  then show ?thesis by (simp add: contains_match_def re_compile_plain_def)
qed

text \<open>
  C9. For every feature name and pattern list, \<^verbatim>\<open>add_custom_pattern\<close> leaves
  exactly one entry for that name in the registry, holding exactly the given list (an old
  list is discarded, not merged), and changes no other entry. Matching then uses only
  the new patterns for the feature: when no column contains a match of any of them, the
  feature is absent from the mapping. In particular, after
  \<^verbatim>\<open>add_custom_pattern("capacity", ["foo"])\<close> on the built-in registry, columns
  that do not contain \<^verbatim>\<open>foo\<close> (whether or not they contain
  \<^verbatim>\<open>capacity\<close>) give no match for the capacity feature.
\<close>

theorem add_custom_pattern_replaces:
  assumes "distinct (dict_keys (feature_patterns self))"
  shows "filter (\<lambda>(f, ps). f = feature_name)
             (feature_patterns (add_custom_pattern self feature_name patterns)) =
           [(feature_name, patterns)] \<and>
         dict_get (feature_patterns (add_custom_pattern self feature_name patterns)) feature_name =
           Some patterns \<and>
         filter (\<lambda>(f, ps). f \<noteq> feature_name)
             (feature_patterns (add_custom_pattern self feature_name patterns)) =
           filter (\<lambda>(f, ps). f \<noteq> feature_name) (feature_patterns self) \<and>
         (patterns_compile rc (feature_patterns (add_custom_pattern self feature_name patterns)) \<and>
          list_all (\<lambda>p. list_all (\<lambda>col. \<not> contains_match rc p col) df_columns) patterns \<longrightarrow>
            (\<exists>mapping.
               find_matching_columns rc (add_custom_pattern self feature_name patterns) df_columns
                 = Inr mapping \<and>
               \<not> dict_has mapping feature_name)) \<and>
         (list_all (\<lambda>col. \<not> search_plain ''foo'' col) df_columns \<longrightarrow>
            (\<exists>mapping.
               find_matching_columns re_compile_plain
                   (add_custom_pattern mapper_init ''capacity'' [''foo'']) df_columns
                 = Inr mapping \<and>
               \<not> dict_has mapping ''capacity''))"
proof (intro conjI impI)
  show "filter (\<lambda>(f, ps). f = feature_name)
             (feature_patterns (add_custom_pattern self feature_name patterns)) =
           [(feature_name, patterns)]"
    using assms by (simp add: add_custom_pattern_def Let_def dict_set_own_entry)
  show "dict_get (feature_patterns (add_custom_pattern self feature_name patterns)) feature_name =
           Some patterns"
    by (simp add: add_custom_pattern_def Let_def dict_set_get)
  show "filter (\<lambda>(f, ps). f \<noteq> feature_name)
             (feature_patterns (add_custom_pattern self feature_name patterns)) =
           filter (\<lambda>(f, ps). f \<noteq> feature_name) (feature_patterns self)"
    by (simp add: add_custom_pattern_def Let_def dict_set_other_entries)
next
  assume "patterns_compile rc (feature_patterns (add_custom_pattern self feature_name patterns)) \<and>
          list_all (\<lambda>p. list_all (\<lambda>col. \<not> contains_match rc p col) df_columns) patterns"
  then show "\<exists>mapping.
               find_matching_columns rc (add_custom_pattern self feature_name patterns) df_columns
                 = Inr mapping \<and>
               \<not> dict_has mapping feature_name"
    using assms replaced_feature_unmatched by blast
next
  assume "list_all (\<lambda>col. \<not> search_plain ''foo'' col) df_columns"
  then have "list_all (\<lambda>p. list_all (\<lambda>col. \<not> contains_match re_compile_plain p col) df_columns)
               [''foo'']"
    by (simp add: contains_match_foo)
  with default_keys_distinct foo_registry_compiles
  show "\<exists>mapping.
               find_matching_columns re_compile_plain
                   (add_custom_pattern mapper_init ''capacity'' [''foo'']) df_columns
                 = Inr mapping \<and>
               \<not> dict_has mapping ''capacity''"
    by (rule replaced_feature_unmatched)
qed

theorem add_custom_pattern_replaces_witness:
  "distinct (dict_keys (feature_patterns mapper_init)) \<and>
   list_all (\<lambda>col. \<not> search_plain ''foo'' col) [''Capacity_Ah'', ''Q_dis''] \<and>
   find_matching_columns re_compile_plain mapper_init [''Capacity_Ah'', ''Q_dis''] =
     Inr [(''capacity'', ''Capacity_Ah''), (''current'', ''Q_dis'')] \<and>
   dict_get (feature_patterns (add_custom_pattern mapper_init ''capacity'' [''foo''])) ''capacity'' =
     Some [''foo''] \<and>
   find_matching_columns re_compile_plain
       (add_custom_pattern mapper_init ''capacity'' [''foo'']) [''Capacity_Ah'', ''Q_dis''] =
     Inr [(''current'', ''Capacity_Ah'')]"
proof -
  have n: "list_all (\<lambda>col. \<not> search_plain ''foo'' col) [''Capacity_Ah'', ''Q_dis'']"
    by code_simp
  have b: "find_matching_columns re_compile_plain mapper_init [''Capacity_Ah'', ''Q_dis''] =
     Inr [(''capacity'', ''Capacity_Ah''), (''current'', ''Q_dis'')]"
    by code_simp
  have a: "find_matching_columns re_compile_plain
       (add_custom_pattern mapper_init ''capacity'' [''foo'']) [''Capacity_Ah'', ''Q_dis''] =
     Inr [(''current'', ''Capacity_Ah'')]"
    by code_simp
  from add_custom_pattern_replaces [OF default_keys_distinct,
      of "''capacity''" "[''foo'']" re_compile_plain "[''Capacity_Ah'', ''Q_dis'']"]
    default_keys_distinct n b a
  show ?thesis by simp
qed

end
